theory Spec2Isabelle
  imports Complex_Main "HOL-Library.Multiset"
begin

section \<open>Values at the HTTP boundary and in the table\<close>

text \<open>
  The body of a request is the object that \<open>express.json\<close> parsed. The athlete form only
  has scalar fields, so a field holds a JSON scalar; a field that is absent reads as
  \<open>undefined\<close> in the handler, which is \<open>None\<close> here. A JSON number is a double; it is
  represented by the rational it denotes.
\<close>

datatype json = JNull | JBool bool | JNum rat | JStr string

type_synonym payload = "string \<rightharpoonup> json"

text \<open>What the driver hands to SQLite for one \<open>?\<close>: it binds every JS number as a double.\<close>

datatype bound = BNull | BDouble rat | BText string

text \<open>What a cell of the table holds (the storage classes other than BLOB).\<close>

datatype sqlval = SNull | SInt int | SReal rat | SText string

datatype affinity = TEXT | REAL | INTEGER

text \<open>
  SQLite's conversions between text and numbers are not part of this repository; they are
  taken as a parameter. \<open>num_of_text s = Some x\<close> says that a column with numeric affinity
  accepts the text \<open>s\<close> as the number \<open>x\<close>, and \<open>text_of_num x\<close> is the text a column with
  TEXT affinity stores for the double \<open>x\<close>.
\<close>

record numfmt =
  num_of_text :: "string \<Rightarrow> rat option"
  text_of_num :: "rat \<Rightarrow> string"

record row =
  rid :: int
  cells :: "(string \<times> sqlval) list"
  created_at :: nat

text \<open>
  The table \<open>athletes\<close>: its rows in rowid order, and the counter that AUTOINCREMENT keeps
  in \<open>sqlite_sequence\<close>. \<open>created_at\<close> is CURRENT_TIMESTAMP, a text of the form
  \<open>YYYY-MM-DD HH:MM:SS\<close>; it is represented by the number of seconds it denotes, which
  orders the same way.
\<close>

record store =
  rows :: "row list"
  seq :: int

definition empty_store :: store where
  "empty_store = \<lparr>rows = [], seq = 0\<rparr>"

definition col :: "row \<Rightarrow> string \<Rightarrow> sqlval" where
  "col r c = (case map_of (cells r) c of Some v \<Rightarrow> v | None \<Rightarrow> SNull)"

datatype body = Created int | Athletes "row list" | Deleted | Failure string

text \<open>
  \<open>Created i\<close> is \<open>{success: true, id: i}\<close>, \<open>Deleted\<close> is \<open>{success: true}\<close>,
  \<open>Failure m\<close> is \<open>{success: false, error: m}\<close> and \<open>Athletes rs\<close> is the JSON array
  of the rows.
\<close>

datatype response = Response nat body

section \<open>The schema\<close>

text \<open>The columns of the INSERT statement, in the order of its placeholders.\<close>

definition text_columns :: "string list" where
  "text_columns =
    [''nome_completo'', ''cpf'', ''data_nascimento'', ''sexo'', ''whatsapp'', ''peso'',
     ''altura'', ''tam_kimono'', ''num_calcado'', ''foto_url'',
     ''lado_dominante'', ''graduacao_faixa'', ''numero_nis'',
     ''logradouro'', ''numero'', ''bairro'', ''cidade'', ''uf'',
     ''escola'', ''serie_ano'', ''turno_estudo'',
     ''restricao_medica'', ''possui_alergias'', ''tipo_sanguineo'',
     ''contato_emergencia_nome'', ''contato_emergencia_tel'',
     ''responsavel_legal'', ''responsavel_cpf'']"

definition insert_columns :: "string list" where
  "insert_columns = text_columns @ [''termo_aceite'']"

definition affinity_of :: "string \<Rightarrow> affinity" where
  "affinity_of c =
    (if c = ''peso'' \<or> c = ''altura'' then REAL
     else if c = ''termo_aceite'' then INTEGER
     else TEXT)"

definition integral :: "rat \<Rightarrow> bool" where
  "integral x \<longleftrightarrow> of_int \<lfloor>x\<rfloor> = x \<and> - (2 ^ 63) \<le> x \<and> x < 2 ^ 63"

fun store_value :: "numfmt \<Rightarrow> affinity \<Rightarrow> bound \<Rightarrow> sqlval" where
  "store_value fmt a BNull = SNull"
| "store_value fmt TEXT (BText s) = SText s"
| "store_value fmt TEXT (BDouble x) = SText (text_of_num fmt x)"
| "store_value fmt REAL (BDouble x) = SReal x"
| "store_value fmt REAL (BText s) =
     (case num_of_text fmt s of Some x \<Rightarrow> SReal x | None \<Rightarrow> SText s)"
| "store_value fmt INTEGER (BDouble x) = (if integral x then SInt \<lfloor>x\<rfloor> else SReal x)"
| "store_value fmt INTEGER (BText s) =
     (case num_of_text fmt s of
        Some x \<Rightarrow> (if integral x then SInt \<lfloor>x\<rfloor> else SReal x)
      | None \<Rightarrow> SText s)"

section \<open>The driver: binding the arguments of \<open>stmt.run\<close>\<close>

text \<open>
  The driver binds numbers, strings and \<open>null\<close>. Any other value, \<open>undefined\<close> and
  booleans among them, makes \<open>run\<close> throw a TypeError with the message below, before the
  statement executes.
\<close>

definition bind_error :: string where
  "bind_error = ''SQLite3 can only bind numbers, strings, bigints, buffers, and null''"

fun bind_value :: "json option \<Rightarrow> string + bound" where
  "bind_value (Some (JNum x)) = Inr (BDouble x)"
| "bind_value (Some (JStr s)) = Inr (BText s)"
| "bind_value (Some JNull) = Inr BNull"
| "bind_value (Some (JBool b)) = Inl bind_error"
| "bind_value None = Inl bind_error"

fun bind_args :: "json option list \<Rightarrow> string + bound list" where
  "bind_args [] = Inr []"
| "bind_args (v # vs) =
     (case bind_value v of
        Inl m \<Rightarrow> Inl m
      | Inr b \<Rightarrow> (case bind_args vs of Inl m \<Rightarrow> Inl m | Inr bs \<Rightarrow> Inr (b # bs)))"

section \<open>The statements\<close>

text \<open>The largest rowid the table has ever held: AUTOINCREMENT hands out the next one.\<close>

definition high_water :: "store \<Rightarrow> int" where
  "high_water st = fold max (map rid (rows st)) (seq st)"

definition max_rowid :: int where
  "max_rowid = 2 ^ 63 - 1"

definition new_cells :: "numfmt \<Rightarrow> bound list \<Rightarrow> (string \<times> sqlval) list" where
  "new_cells fmt bs = map (\<lambda>(c, b). (c, store_value fmt (affinity_of c) b)) (zip insert_columns bs)"

definition cell :: "(string \<times> sqlval) list \<Rightarrow> string \<Rightarrow> sqlval" where
  "cell cs c = (case map_of cs c of Some v \<Rightarrow> v | None \<Rightarrow> SNull)"

text \<open>
  \<open>INSERT INTO athletes (...) VALUES (?, ..., ?)\<close> on bound values: the rowid is drawn,
  the values take the affinity of their columns, then NOT NULL and UNIQUE are checked. A
  failed statement leaves the table and the counter as they were.
\<close>

definition insert_athlete :: "numfmt \<Rightarrow> nat \<Rightarrow> bound list \<Rightarrow> store \<Rightarrow> string + (int \<times> store)" where
  "insert_athlete fmt now bs st =
    (let cs = new_cells fmt bs; i = high_water st + 1 in
     if max_rowid \<le> high_water st then Inl ''database or disk is full''
     else if cell cs ''nome_completo'' = SNull
       then Inl ''NOT NULL constraint failed: athletes.nome_completo''
     else if cell cs ''cpf'' = SNull
       then Inl ''NOT NULL constraint failed: athletes.cpf''
     else if \<exists>r \<in> set (rows st). col r ''cpf'' = cell cs ''cpf''
       then Inl ''UNIQUE constraint failed: athletes.cpf''
     else Inr (i, \<lparr>rows = rows st @ [\<lparr>rid = i, cells = cs, created_at = now\<rparr>], seq = i\<rparr>))"

text \<open>
  An exception of the store that does not depend on the rows (the file is locked, the disk
  fails) is the argument \<open>fault\<close>: \<open>Some m\<close> when the driver throws an error with message
  \<open>m\<close>, \<open>None\<close> when the statement runs.
\<close>

definition stmt_run_insert ::
  "numfmt \<Rightarrow> nat \<Rightarrow> string option \<Rightarrow> json option list \<Rightarrow> store \<Rightarrow> string + (int \<times> store)" where
  "stmt_run_insert fmt now fault args st =
    (case fault of
       Some m \<Rightarrow> Inl m
     | None \<Rightarrow> (case bind_args args of Inl m \<Rightarrow> Inl m | Inr bs \<Rightarrow> insert_athlete fmt now bs st))"

text \<open>
  \<open>SELECT * FROM athletes ORDER BY created_at DESC\<close>: the rows are scanned in rowid order
  and sorted on the key alone, so rows with the same \<open>created_at\<close> stay in rowid order.
\<close>

definition order_by_created_at_desc :: "row list \<Rightarrow> row list" where
  "order_by_created_at_desc rs = sort_key (\<lambda>r. - int (created_at r)) rs"

definition stmt_all_select :: "string option \<Rightarrow> store \<Rightarrow> string + row list" where
  "stmt_all_select fault st =
    (case fault of
       Some m \<Rightarrow> Inl m
     | None \<Rightarrow> Inr (order_by_created_at_desc (rows st)))"

text \<open>
  \<open>DELETE FROM athletes WHERE id = ?\<close> with the path parameter, a string: the comparison
  with the integer column converts the text to a number when it is one.
\<close>

definition rowid_of_text :: "numfmt \<Rightarrow> string \<Rightarrow> int option" where
  "rowid_of_text fmt p =
    (case num_of_text fmt p of
       Some x \<Rightarrow> (if integral x then Some \<lfloor>x\<rfloor> else None)
     | None \<Rightarrow> None)"

definition stmt_run_delete :: "numfmt \<Rightarrow> string option \<Rightarrow> string \<Rightarrow> store \<Rightarrow> string + store" where
  "stmt_run_delete fmt fault p st =
    (case fault of
       Some m \<Rightarrow> Inl m
     | None \<Rightarrow> Inr (st\<lparr>rows := filter (\<lambda>r. rowid_of_text fmt p \<noteq> Some (rid r)) (rows st)\<rparr>))"

section \<open>The handlers\<close>

fun truthy :: "json option \<Rightarrow> bool" where
  "truthy None = False"
| "truthy (Some JNull) = False"
| "truthy (Some (JBool b)) = b"
| "truthy (Some (JNum x)) = (x \<noteq> 0)"
| "truthy (Some (JStr s)) = (s \<noteq> [])"

text \<open>The arguments of \<open>stmt.run\<close>: 28 fields of the body, then \<open>data.termo_aceite ? 1 : 0\<close>.\<close>

definition run_args :: "payload \<Rightarrow> json option list" where
  "run_args data =
    map data text_columns @ [Some (JNum (if truthy (data ''termo_aceite'') then 1 else 0))]"

definition post_api_register ::
  "numfmt \<Rightarrow> nat \<Rightarrow> string option \<Rightarrow> payload \<Rightarrow> store \<Rightarrow> response \<times> store" where
  "post_api_register fmt now fault data st =
    (case stmt_run_insert fmt now fault (run_args data) st of
       Inr (lastInsertRowid, st') \<Rightarrow> (Response 200 (Created lastInsertRowid), st')
     | Inl message \<Rightarrow> (Response 500 (Failure message), st))"

definition get_api_athletes :: "string option \<Rightarrow> store \<Rightarrow> response \<times> store" where
  "get_api_athletes fault st =
    (case stmt_all_select fault st of
       Inr athletes \<Rightarrow> (Response 200 (Athletes athletes), st)
     | Inl message \<Rightarrow> (Response 500 (Failure message), st))"

definition delete_api_athletes ::
  "numfmt \<Rightarrow> string option \<Rightarrow> string \<Rightarrow> store \<Rightarrow> response \<times> store" where
  "delete_api_athletes fmt fault p st =
    (case stmt_run_delete fmt fault p st of
       Inr st' \<Rightarrow> (Response 200 Deleted, st')
     | Inl message \<Rightarrow> (Response 500 (Failure message), st))"




section \<open>Sequences of requests\<close>

datatype request =
    Register nat "string option" payload
  | ListAthletes "string option"
  | DeleteAthlete "string option" string

fun handle :: "numfmt \<Rightarrow> request \<Rightarrow> store \<Rightarrow> response \<times> store" where
  "handle fmt (Register now fault data) st = post_api_register fmt now fault data st"
| "handle fmt (ListAthletes fault) st = get_api_athletes fault st"
| "handle fmt (DeleteAthlete fault p) st = delete_api_athletes fmt fault p st"

fun serve :: "numfmt \<Rightarrow> request list \<Rightarrow> store \<Rightarrow> response list \<times> store" where
  "serve fmt [] st = ([], st)"
| "serve fmt (q # qs) st =
     (case handle fmt q st of
        (r, st') \<Rightarrow> (case serve fmt qs st' of (rs, st'') \<Rightarrow> (r # rs, st'')))"

fun created_ids :: "response list \<Rightarrow> int list" where
  "created_ids [] = []"
| "created_ids (Response c (Created i) # rs) = i # created_ids rs"
| "created_ids (r # rs) = created_ids rs"

text \<open>
  What the schema keeps true of the table: the rowids are distinct and in scan order, and
  none exceeds the AUTOINCREMENT counter.
\<close>

definition table_ok :: "store \<Rightarrow> bool" where
  "table_ok st \<longleftrightarrow>
     sorted_wrt (<) (map rid (rows st)) \<and> (\<forall>r \<in> set (rows st). rid r \<le> seq st)"

section \<open>Sample inputs\<close>

text \<open>
  A conversion pair to run examples with. It reads and writes unsigned decimals such as
  \<open>70\<close> and \<open>1.75\<close>, on which it agrees with SQLite; the theorems below hold for
  every conversion pair.
\<close>

fun read_digits :: "string \<Rightarrow> nat \<Rightarrow> nat option" where
  "read_digits [] acc = Some acc"
| "read_digits (c # cs) acc =
     (if c \<in> set ''0123456789'' then read_digits cs (10 * acc + (of_char c - 48)) else None)"

definition read_decimal :: "string \<Rightarrow> rat option" where
  "read_decimal s =
    (let a = takeWhile (\<lambda>c. c \<noteq> CHR ''.'') s; b = dropWhile (\<lambda>c. c \<noteq> CHR ''.'') s in
     if a = [] then None
     else (case read_digits a 0 of
             None \<Rightarrow> None
           | Some n \<Rightarrow>
               (case b of
                  [] \<Rightarrow> Some (of_nat n)
                | d # f \<Rightarrow>
                    (if f = [] then None
                     else (case read_digits f 0 of
                             None \<Rightarrow> None
                           | Some m \<Rightarrow> Some (of_nat n + of_nat m / 10 ^ length f))))))"

fun show_digits :: "nat \<Rightarrow> nat \<Rightarrow> string" where
  "show_digits 0 n = []"
| "show_digits (Suc k) n =
     (if n < 10 then [char_of (48 + n)]
      else show_digits k (n div 10) @ [char_of (48 + n mod 10)])"

fun show_fraction :: "nat \<Rightarrow> rat \<Rightarrow> string" where
  "show_fraction 0 x = []"
| "show_fraction (Suc k) x =
     (if x = 0 then []
      else char_of (48 + nat \<lfloor>10 * x\<rfloor>) # show_fraction k (10 * x - of_int \<lfloor>10 * x\<rfloor>))"

definition show_decimal :: "rat \<Rightarrow> string" where
  "show_decimal x =
    (let n = nat \<lfloor>x\<rfloor>; f = x - of_int \<lfloor>x\<rfloor> in
     show_digits 20 n @ ''.'' @ (if f = 0 then ''0'' else show_fraction 15 f))"

definition sample_fmt :: numfmt where
  "sample_fmt = \<lparr>num_of_text = read_decimal, text_of_num = show_decimal\<rparr>"

text \<open>Payloads as the form sends them: every field a string, the consent a boolean.\<close>

definition form :: "string \<Rightarrow> string \<Rightarrow> bool \<Rightarrow> payload" where
  "form name cpf consent =
    map_of
     [(''nome_completo'', JStr name), (''cpf'', JStr cpf),
      (''data_nascimento'', JStr ''2012-03-04''), (''sexo'', JStr ''Feminino''),
      (''whatsapp'', JStr []), (''peso'', JStr []), (''altura'', JStr ''1.75''),
      (''tam_kimono'', JStr []), (''num_calcado'', JStr []), (''foto_url'', JStr []),
      (''lado_dominante'', JStr ''Destro''), (''graduacao_faixa'', JStr ''Branca''),
      (''numero_nis'', JStr []),
      (''logradouro'', JStr []), (''numero'', JStr []), (''bairro'', JStr []),
      (''cidade'', JStr ''Recife''), (''uf'', JStr ''PE''),
      (''escola'', JStr []), (''serie_ano'', JStr []), (''turno_estudo'', JStr ''Tarde''),
      (''restricao_medica'', JStr []), (''possui_alergias'', JStr []),
      (''tipo_sanguineo'', JStr []), (''contato_emergencia_nome'', JStr []),
      (''contato_emergencia_tel'', JStr []),
      (''responsavel_legal'', JStr []), (''responsavel_cpf'', JStr []),
      (''termo_aceite'', JBool consent)]"

definition ana :: payload where
  "ana = form ''Ana Silva'' ''111'' True"

definition bia :: payload where
  "bia = form ''Bia Souza'' ''222'' False"

text \<open>The table after Ana registered, and after Bia registered one second later.\<close>

definition one_athlete :: store where
  "one_athlete = snd (post_api_register sample_fmt 100 None ana empty_store)"

definition two_athletes :: store where
  "two_athletes = snd (post_api_register sample_fmt 101 None bia one_athlete)"

section \<open>Binding and storing one row\<close>

lemma distinct_insert_columns: "distinct insert_columns"
  by (simp add: insert_columns_def text_columns_def)

lemma bind_args_Inr:
  "bind_args vs = Inr bs \<Longrightarrow>
   length bs = length vs \<and> (\<forall>k < length vs. bind_value (vs ! k) = Inr (bs ! k))"
proof (induction vs arbitrary: bs)
  case Nil
  then show ?case by simp
next
  case (Cons v vs)
  then show ?case
    by (auto split: sum.splits simp: nth_Cons split: nat.splits)
qed


lemma map_of_tagged:
  "distinct cs \<Longrightarrow> k < length cs \<Longrightarrow> k < length bs \<Longrightarrow>
   map_of (map (\<lambda>(c, b). (c, f c b)) (zip cs bs)) (cs ! k) = Some (f (cs ! k) (bs ! k))"
proof (induction cs arbitrary: bs k)
  case Nil
  then show ?case by simp
next
  case (Cons c cs)
  then obtain b bs' where bs: "bs = b # bs'" by (cases bs) auto
  show ?case
  proof (cases k)
    case 0
    then show ?thesis using bs by simp
  next
    case (Suc j)
    then have "cs ! j \<in> set cs" using Cons.prems by simp
    then have "cs ! j \<noteq> c" using Cons.prems by auto
    then show ?thesis using Suc bs Cons by simp
  qed
qed

lemma cell_new_cells:
  assumes "k < length insert_columns" "length bs = length insert_columns"
  shows "cell (new_cells fmt bs) (insert_columns ! k)
         = store_value fmt (affinity_of (insert_columns ! k)) (bs ! k)"
  using assms distinct_insert_columns
  by (simp add: cell_def new_cells_def map_of_tagged)

lemma run_args_length: "length (run_args data) = length insert_columns"
  by (simp add: run_args_def insert_columns_def)



lemma stored_consent_cell:
  assumes "bind_args (run_args data) = Inr bs"
  shows "cell (new_cells fmt bs) ''termo_aceite'' =
         SInt (if truthy (data ''termo_aceite'') then 1 else 0)"
proof -
  let ?k = "length text_columns"
  let ?v = "Some (JNum (if truthy (data ''termo_aceite'') then 1 else 0))"
  have len: "length bs = length insert_columns"
    using bind_args_Inr [OF assms] by (simp add: run_args_length)
  have kk: "?k < length insert_columns" "insert_columns ! ?k = ''termo_aceite''"
    by (simp_all add: insert_columns_def)
  have "run_args data ! ?k = ?v"
    by (simp add: run_args_def nth_append)
  moreover have "?k < length (run_args data)"
    using kk by (simp add: run_args_length)
  ultimately have "bind_value ?v = Inr (bs ! ?k)"
    using bind_args_Inr [OF assms] by metis
  then have "bs ! ?k = BDouble (if truthy (data ''termo_aceite'') then 1 else 0)"
    by simp
  then show ?thesis
    using cell_new_cells [OF kk(1) len, of fmt] kk(2)
    by (simp add: affinity_of_def integral_def)
qed

lemma fold_max_bounds:
  "(a::int) \<le> fold max xs a \<and> (\<forall>x \<in> set xs. x \<le> fold max xs a)"
proof (induction xs arbitrary: a)
  case Nil
  then show ?case by simp
next
  case (Cons x xs)
  have "max x a \<le> fold max xs (max x a)" using Cons.IH by blast
  then show ?case using Cons.IH [of "max x a"] by auto
qed

lemma fold_max_bounded: "\<forall>x \<in> set xs. x \<le> (a::int) \<Longrightarrow> fold max xs a = a"
  by (induction xs) (auto simp: max_def)

lemma high_water_bounds:
  "seq st \<le> high_water st \<and> (\<forall>r \<in> set (rows st). rid r \<le> high_water st)"
  using fold_max_bounds [of "seq st" "map rid (rows st)"] by (simp add: high_water_def)

lemma high_water_table_ok: "table_ok st \<Longrightarrow> high_water st = seq st"
  by (simp add: high_water_def table_ok_def fold_max_bounded)

lemma insert_athlete_Inr:
  assumes "insert_athlete fmt now bs st = Inr (i, st')"
  shows "i = high_water st + 1"
    and "st' = \<lparr>rows = rows st @ [\<lparr>rid = i, cells = new_cells fmt bs, created_at = now\<rparr>], seq = i\<rparr>"
    and "cell (new_cells fmt bs) ''nome_completo'' \<noteq> SNull"
    and "cell (new_cells fmt bs) ''cpf'' \<noteq> SNull"
    and "\<forall>r \<in> set (rows st). col r ''cpf'' \<noteq> cell (new_cells fmt bs) ''cpf''"
  using assms by (auto simp: insert_athlete_def Let_def split: if_splits)

lemma register_cases:
  "(\<exists>m. post_api_register fmt now fault data st = (Response 500 (Failure m), st)) \<or>
   (\<exists>bs i st'. fault = None \<and> bind_args (run_args data) = Inr bs \<and>
       insert_athlete fmt now bs st = Inr (i, st') \<and>
       post_api_register fmt now fault data st = (Response 200 (Created i), st'))"
  by (auto simp: post_api_register_def stmt_run_insert_def split: option.splits sum.splits)

lemma register_created:
  assumes "post_api_register fmt now fault data st = (Response 200 (Created i), st')"
  shows "\<exists>bs. fault = None \<and> bind_args (run_args data) = Inr bs \<and>
              insert_athlete fmt now bs st = Inr (i, st')"
  using assms
  by (auto simp: post_api_register_def stmt_run_insert_def split: option.splits sum.splits)

lemma col_new_row [simp]: "col \<lparr>rid = i, cells = cs, created_at = t\<rparr> c = cell cs c"
  by (simp add: col_def cell_def)

section \<open>The list statement\<close>





section \<open>The table across requests\<close>


lemma created_ids_Cons:
  "created_ids (r # rs) =
    (case r of Response c (Created i) \<Rightarrow> i # created_ids rs | _ \<Rightarrow> created_ids rs)"
proof (cases r)
  case (Response c b)
  then show ?thesis by (cases b) simp_all
qed

lemma handle_step:
  assumes "table_ok st" "handle fmt q st = (resp, st')"
  shows "table_ok st'" and "seq st \<le> seq st'"
    and "\<forall>c i. resp = Response c (Created i) \<longrightarrow> seq st < i \<and> seq st' = i"
    and "\<forall>r' \<in> set (rows st'). r' \<in> set (rows st) \<or> seq st < rid r'"
proof -
  have "table_ok st' \<and> seq st \<le> seq st' \<and>
        (\<forall>c i. resp = Response c (Created i) \<longrightarrow> seq st < i \<and> seq st' = i) \<and>
        (\<forall>r' \<in> set (rows st'). r' \<in> set (rows st) \<or> seq st < rid r')"
  proof (cases q)
    case (Register now fault data)
    from register_cases [of fmt now fault data st] show ?thesis
    proof
      assume "\<exists>m. post_api_register fmt now fault data st = (Response 500 (Failure m), st)"
      then show ?thesis using assms Register by auto
    next
      assume "\<exists>bs i st'. fault = None \<and> bind_args (run_args data) = Inr bs \<and>
         insert_athlete fmt now bs st = Inr (i, st') \<and>
         post_api_register fmt now fault data st = (Response 200 (Created i), st')"
      then obtain bs i where ins: "insert_athlete fmt now bs st = Inr (i, st')"
        and r: "resp = Response 200 (Created i)"
        using assms(2) Register by auto
      have i: "i = seq st + 1"
        using insert_athlete_Inr(1) [OF ins] high_water_table_ok [OF assms(1)] by simp
      have st': "rows st' = rows st @ [\<lparr>rid = i, cells = new_cells fmt bs, created_at = now\<rparr>]"
        "seq st' = i"
        using insert_athlete_Inr(2) [OF ins] by simp_all
      have "table_ok st'"
        using assms(1) i st' by (fastforce simp: table_ok_def sorted_wrt_append)
      then show ?thesis using i st' r by auto
    qed
  next
    case (ListAthletes fault)
    then show ?thesis using assms
      by (auto simp: get_api_athletes_def split: sum.splits)
  next
    case (DeleteAthlete fault p)
    have "table_ok (st\<lparr>rows := filter P (rows st)\<rparr>)" for P
      using assms(1) by (auto simp: table_ok_def sorted_wrt_map intro: sorted_wrt_filter)
    then show ?thesis using assms DeleteAthlete
      by (auto simp: delete_api_athletes_def stmt_run_delete_def split: option.splits)
  qed
  then show "table_ok st'" and "seq st \<le> seq st'"
    and "\<forall>c i. resp = Response c (Created i) \<longrightarrow> seq st < i \<and> seq st' = i"
    and "\<forall>r' \<in> set (rows st'). r' \<in> set (rows st) \<or> seq st < rid r'"
    by blast+
qed

lemma serve_Cons:
  "handle fmt q st = (r, st') \<Longrightarrow>
   serve fmt (q # qs) st = (r # fst (serve fmt qs st'), snd (serve fmt qs st'))"
  by (simp split: prod.splits)

lemma serve_invariant:
  "table_ok st \<Longrightarrow>
   table_ok (snd (serve fmt qs st)) \<and> seq st \<le> seq (snd (serve fmt qs st)) \<and>
   sorted_wrt (<) (created_ids (fst (serve fmt qs st))) \<and>
   (\<forall>i \<in> set (created_ids (fst (serve fmt qs st))). seq st < i) \<and>
   (\<forall>r' \<in> set (rows (snd (serve fmt qs st))). r' \<in> set (rows st) \<or> seq st < rid r')"
proof (induction qs arbitrary: st)
  case Nil
  then show ?case by simp
next
  case (Cons q qs)
  obtain r st1 where h: "handle fmt q st = (r, st1)" by (cases "handle fmt q st")
  note step = handle_step [OF Cons.prems h]
  note ih = Cons.IH [OF step(1)]
  have eq: "serve fmt (q # qs) st = (r # fst (serve fmt qs st1), snd (serve fmt qs st1))"
    by (rule serve_Cons [OF h])
  have ids: "sorted_wrt (<) (created_ids (r # fst (serve fmt qs st1))) \<and>
        (\<forall>i \<in> set (created_ids (r # fst (serve fmt qs st1))). seq st < i)"
  proof (cases "\<exists>c i. r = Response c (Created i)")
    case True
    then obtain c i where r: "r = Response c (Created i)" by blast
    then have "seq st < i" "seq st1 = i" using step(3) by auto
    then show ?thesis using ih r by auto
  next
    case False
    then have "created_ids (r # fst (serve fmt qs st1)) = created_ids (fst (serve fmt qs st1))"
      by (auto simp: created_ids_Cons split: response.splits body.splits)
    then show ?thesis using ih step(2) by auto
  qed
  have "\<forall>r' \<in> set (rows (snd (serve fmt qs st1))). r' \<in> set (rows st) \<or> seq st < rid r'"
    using ih step(2,4) by fastforce
  then show ?case
    using eq ih step(2) ids by auto
qed

section \<open>Sample runs\<close>

lemma ana_registers:
  "post_api_register sample_fmt 100 None ana empty_store = (Response 200 (Created 1), one_athlete)"
  by code_simp


lemma one_athlete_row:
  "hd (rows one_athlete) \<in> set (rows one_athlete)"
  "col (hd (rows one_athlete)) ''cpf'' = SText ''111''"
  by code_simp+

lemma table_ok_one_athlete: "table_ok one_athlete"
  by code_simp

section \<open>Registering\<close>







text \<open>
  C7. When a register request succeeds with id \<open>i\<close>, the table holds exactly one row with
  that id, and its \<open>termo_aceite\<close> cell is the integer 1 when the submitted consent was
  \<open>true\<close>, the integer 0 when it was \<open>false\<close>, and 0 or 1 whatever was submitted.
\<close>

theorem register_consent_stored_as_bit:
  assumes "post_api_register fmt now fault data st = (Response 200 (Created i), st')"
  shows "\<exists>r. filter (\<lambda>r. rid r = i) (rows st') = [r] \<and>
             col r ''termo_aceite'' = SInt (if truthy (data ''termo_aceite'') then 1 else 0) \<and>
             (data ''termo_aceite'' = Some (JBool True) \<longrightarrow> col r ''termo_aceite'' = SInt 1) \<and>
             (data ''termo_aceite'' = Some (JBool False) \<longrightarrow> col r ''termo_aceite'' = SInt 0) \<and>
             (col r ''termo_aceite'' = SInt 0 \<or> col r ''termo_aceite'' = SInt 1)"
proof -
  from register_created [OF assms] obtain bs where b: "bind_args (run_args data) = Inr bs"
    and ins: "insert_athlete fmt now bs st = Inr (i, st')" by blast
  let ?r = "\<lparr>rid = i, cells = new_cells fmt bs, created_at = now\<rparr>"
  have "\<forall>r \<in> set (rows st). rid r \<noteq> i"
    using high_water_bounds [of st] insert_athlete_Inr(1) [OF ins] by fastforce
  then have "filter (\<lambda>r. rid r = i) (rows st) = []"
    by (simp add: filter_empty_conv)
  then have "filter (\<lambda>r. rid r = i) (rows st') = [?r]"
    using insert_athlete_Inr(2) [OF ins] by simp
  moreover have "col ?r ''termo_aceite'' = SInt (if truthy (data ''termo_aceite'') then 1 else 0)"
    using stored_consent_cell [OF b, of fmt] by simp
  ultimately show ?thesis by auto
qed

theorem register_consent_stored_as_bit_witness:
  "post_api_register sample_fmt 100 None ana empty_store = (Response 200 (Created 1), one_athlete) \<and>
   ana ''termo_aceite'' = Some (JBool True) \<and>
   (\<exists>r. filter (\<lambda>r. rid r = 1) (rows one_athlete) = [r] \<and> col r ''termo_aceite'' = SInt 1)"
proof -
  have t: "ana ''termo_aceite'' = Some (JBool True)" by code_simp
  show ?thesis
    using register_consent_stored_as_bit [OF ana_registers] ana_registers t by auto
qed

text \<open>
  C8. Whenever the statement of a handler throws, with message \<open>m\<close>, the handler answers
  status 500 with the body \<open>{success: false, error: m}\<close>, and the store is the one before
  the request. This holds for the register, list and delete handlers, and for every
  cause of the exception: a value the driver cannot bind, a violated constraint, or a
  fault of the store itself.
\<close>

theorem store_exception_is_status_500:
  "(stmt_run_insert fmt now fault (run_args data) st = Inl m \<longrightarrow>
      post_api_register fmt now fault data st = (Response 500 (Failure m), st)) \<and>
   (stmt_all_select fault st = Inl m \<longrightarrow>
      get_api_athletes fault st = (Response 500 (Failure m), st)) \<and>
   (stmt_run_delete fmt fault p st = Inl m \<longrightarrow>
      delete_api_athletes fmt fault p st = (Response 500 (Failure m), st)) \<and>
   (fault = Some m \<longrightarrow>
      stmt_run_insert fmt now fault (run_args data) st = Inl m \<and>
      stmt_all_select fault st = Inl m \<and>
      stmt_run_delete fmt fault p st = Inl m)"
  by (simp add: post_api_register_def get_api_athletes_def delete_api_athletes_def
      stmt_run_insert_def stmt_all_select_def stmt_run_delete_def)

theorem store_exception_is_status_500_witness:
  "stmt_run_insert sample_fmt 200 None (run_args ana) one_athlete
     = Inl ''UNIQUE constraint failed: athletes.cpf'' \<and>
   post_api_register sample_fmt 200 None ana one_athlete
     = (Response 500 (Failure ''UNIQUE constraint failed: athletes.cpf''), one_athlete) \<and>
   stmt_all_select (Some ''database is locked'') one_athlete = Inl ''database is locked'' \<and>
   get_api_athletes (Some ''database is locked'') one_athlete
     = (Response 500 (Failure ''database is locked''), one_athlete) \<and>
   stmt_run_delete sample_fmt (Some ''database is locked'') ''1'' one_athlete
     = Inl ''database is locked'' \<and>
   delete_api_athletes sample_fmt (Some ''database is locked'') ''1'' one_athlete
     = (Response 500 (Failure ''database is locked''), one_athlete)"
proof -
  have dup: "stmt_run_insert sample_fmt 200 None (run_args ana) one_athlete
     = Inl ''UNIQUE constraint failed: athletes.cpf''"
    by code_simp
  show ?thesis
    using store_exception_is_status_500
        [of sample_fmt 200 None ana one_athlete "''UNIQUE constraint failed: athletes.cpf''"]
      store_exception_is_status_500
        [of sample_fmt 200 "Some ''database is locked''" ana one_athlete "''database is locked''"
           "''1''"]
      dup
    by simp
qed

section \<open>Listing\<close>







section \<open>Deleting\<close>

text \<open>
  C4. With no fault of the store, the delete handler always answers \<open>{success: true}\<close>.
  When the path parameter denotes the id \<open>i\<close>, the rows left are the rows whose id is not
  \<open>i\<close>, in their order; when no row has the id of the parameter, the store is unchanged.
  A second delete with the same parameter changes nothing and answers success again. The
  AUTOINCREMENT counter is not moved by a delete.
\<close>

theorem delete_removes_only_that_id:
  "fst (delete_api_athletes fmt None p st) = Response 200 Deleted \<and>
   seq (snd (delete_api_athletes fmt None p st)) = seq st \<and>
   (rowid_of_text fmt p = Some i \<longrightarrow>
      rows (snd (delete_api_athletes fmt None p st)) = filter (\<lambda>r. rid r \<noteq> i) (rows st)) \<and>
   ((\<forall>r \<in> set (rows st). rowid_of_text fmt p \<noteq> Some (rid r)) \<longrightarrow>
      delete_api_athletes fmt None p st = (Response 200 Deleted, st)) \<and>
   delete_api_athletes fmt None p (snd (delete_api_athletes fmt None p st))
     = (Response 200 Deleted, snd (delete_api_athletes fmt None p st))"
proof -
  have "filter (\<lambda>r. Some i \<noteq> Some (rid r)) (rows st) = filter (\<lambda>r. rid r \<noteq> i) (rows st)"
    by (rule filter_cong) auto
  moreover have "filter (\<lambda>r. rowid_of_text fmt p \<noteq> Some (rid r)) (rows st) = rows st"
    if "\<forall>r \<in> set (rows st). rowid_of_text fmt p \<noteq> Some (rid r)"
    using that by (simp add: filter_id_conv)
  ultimately show ?thesis
    by (auto simp: delete_api_athletes_def stmt_run_delete_def)
qed

theorem delete_removes_only_that_id_witness:
  "rowid_of_text sample_fmt ''1'' = Some 1 \<and>
   map rid (rows two_athletes) = [1, 2] \<and>
   map rid (rows (snd (delete_api_athletes sample_fmt None ''1'' two_athletes))) = [2] \<and>
   rowid_of_text sample_fmt ''7'' = Some 7 \<and>
   delete_api_athletes sample_fmt None ''7'' two_athletes = (Response 200 Deleted, two_athletes)"
proof -
  have a: "rowid_of_text sample_fmt ''1'' = Some 1" "rowid_of_text sample_fmt ''7'' = Some 7"
    "map rid (rows two_athletes) = [1, 2]"
    by code_simp+
  have b: "map rid (filter (\<lambda>r. rid r \<noteq> 1) (rows two_athletes)) = [2]"
    by code_simp
  have c: "\<forall>r \<in> set (rows two_athletes). rowid_of_text sample_fmt ''7'' \<noteq> Some (rid r)"
    by code_simp
  show ?thesis
    using delete_removes_only_that_id [of sample_fmt "''1''" two_athletes 1]
      delete_removes_only_that_id [of sample_fmt "''7''" two_athletes 7] a b c
    by simp
qed

section \<open>Ids and rows across requests\<close>



text \<open>
  C9. No request changes a stored record: after any sequence of register, list and delete
  requests, a row that has the id of a row stored before is that row, with every cell and
  its \<open>created_at\<close> as they were.
\<close>

theorem stored_record_never_changes:
  assumes "table_ok st" and "r \<in> set (rows st)"
  shows "\<forall>r' \<in> set (rows (snd (serve fmt qs st))). rid r' = rid r \<longrightarrow> r' = r"
proof (intro ballI impI)
  fix r' assume r': "r' \<in> set (rows (snd (serve fmt qs st)))" "rid r' = rid r"
  have "rid r \<le> seq st" using assms by (simp add: table_ok_def)
  then have in_st: "r' \<in> set (rows st)"
    using serve_invariant [OF assms(1), of fmt qs] r' by fastforce
  have "distinct (map rid (rows st))"
    using assms(1) by (simp add: table_ok_def strict_sorted_iff)
  then have "inj_on rid (set (rows st))" by (simp add: distinct_map)
  then show "r' = r" using in_st assms(2) r'(2) by (auto dest: inj_onD)
qed

theorem stored_record_never_changes_witness:
  "table_ok one_athlete \<and> hd (rows one_athlete) \<in> set (rows one_athlete) \<and>
   hd (rows (snd (serve sample_fmt
        [Register 101 None bia, ListAthletes None, DeleteAthlete None ''2''] one_athlete)))
     \<in> set (rows (snd (serve sample_fmt
        [Register 101 None bia, ListAthletes None, DeleteAthlete None ''2''] one_athlete))) \<and>
   rid (hd (rows (snd (serve sample_fmt
        [Register 101 None bia, ListAthletes None, DeleteAthlete None ''2''] one_athlete))))
     = rid (hd (rows one_athlete)) \<and>
   hd (rows (snd (serve sample_fmt
        [Register 101 None bia, ListAthletes None, DeleteAthlete None ''2''] one_athlete)))
     = hd (rows one_athlete)"
proof -
  let ?st = "snd (serve sample_fmt
        [Register 101 None bia, ListAthletes None, DeleteAthlete None ''2''] one_athlete)"
  have a: "hd (rows ?st) \<in> set (rows ?st)" by code_simp
  have b: "rid (hd (rows ?st)) = rid (hd (rows one_athlete))" by code_simp
  show ?thesis
    using stored_record_never_changes [OF table_ok_one_athlete one_athlete_row(1), of sample_fmt
        "[Register 101 None bia, ListAthletes None, DeleteAthlete None ''2'']"]
      table_ok_one_athlete one_athlete_row(1) a b
    by blast
qed


end
